theory Spec2Isabelle
  imports Main
begin

section \<open>Characters and the string operations of the host language\<close>

text \<open>
  A Python \<open>str\<close> is modelled as a HOL \<open>string\<close>. A \<open>char\<close> is read as the code point
  of the same number, so the model covers the code points 0 to 255. The three
  classifications below are the ones the standard library applies to that range:
  \<open>str.isspace\<close> (used by \<open>strip\<close>), the regular expression class \<open>\w\<close> for \<open>str\<close>
  patterns (alphanumeric or underscore), and \<open>str.lower\<close>.
\<close>

definition isspace :: "char \<Rightarrow> bool" where
  "isspace c =
     (let n = (of_char c :: nat)
      in (9 \<le> n \<and> n \<le> 13) \<or> (28 \<le> n \<and> n \<le> 32) \<or> n = 133 \<or> n = 160)"

definition isword :: "char \<Rightarrow> bool" where
  "isword c =
     (let n = (of_char c :: nat)
      in (48 \<le> n \<and> n \<le> 57) \<or> (65 \<le> n \<and> n \<le> 90) \<or> n = 95 \<or> (97 \<le> n \<and> n \<le> 122)
         \<or> n = 170 \<or> n = 178 \<or> n = 179 \<or> n = 181 \<or> n = 185 \<or> n = 186
         \<or> (188 \<le> n \<and> n \<le> 190) \<or> (192 \<le> n \<and> n \<le> 214)
         \<or> (216 \<le> n \<and> n \<le> 246) \<or> (248 \<le> n \<and> n \<le> 255))"

definition lower_char :: "char \<Rightarrow> char" where
  "lower_char c =
     (let n = (of_char c :: nat)
      in if (65 \<le> n \<and> n \<le> 90) \<or> (192 \<le> n \<and> n \<le> 222 \<and> n \<noteq> 215)
         then char_of (n + 32) else c)"

text \<open>\<open>s.lower()\<close>\<close>

definition lower :: "string \<Rightarrow> string" where
  "lower s = map lower_char s"

text \<open>\<open>s.strip()\<close>: leading and trailing whitespace removed.\<close>

definition strip :: "string \<Rightarrow> string" where
  "strip s = rev (dropWhile isspace (rev (dropWhile isspace s)))"

text \<open>\<open>s.count(c)\<close> for a one-character \<open>c\<close>.\<close>

definition count :: "string \<Rightarrow> char \<Rightarrow> nat" where
  "count s c = length (filter (\<lambda>x. x = c) s)"

text \<open>\<open>s.endswith(t)\<close> and \<open>s.startswith(t)\<close>\<close>

definition endswith :: "string \<Rightarrow> string \<Rightarrow> bool" where
  "endswith s t = (length t \<le> length s \<and> drop (length s - length t) s = t)"

definition startswith :: "string \<Rightarrow> string \<Rightarrow> bool" where
  "startswith s t = (take (length t) s = t)"

text \<open>\<open>t in s\<close> for strings: \<open>t\<close> occurs in \<open>s\<close> as a contiguous substring.\<close>

fun contains :: "string \<Rightarrow> string \<Rightarrow> bool" where
  "contains [] t = (t = [])"
| "contains (c # s) t = (startswith (c # s) t \<or> contains s t)"

text \<open>\<open>sep.join(parts)\<close>\<close>

fun join :: "string \<Rightarrow> string list \<Rightarrow> string" where
  "join sep [] = []"
| "join sep [p] = p"
| "join sep (p # q # ps) = p @ sep @ join sep (q # ps)"

text \<open>
  \<open>s.splitlines()\<close>: the line boundaries in this range of code points are line feed,
  vertical tab, form feed, carriage return (with a following line feed, if any, part
  of the same boundary), the file, group and record separators, and next line. A
  boundary at the very end opens no further line.
\<close>

definition islinebreak :: "char \<Rightarrow> bool" where
  "islinebreak c =
     (let n = (of_char c :: nat)
      in (10 \<le> n \<and> n \<le> 13) \<or> (28 \<le> n \<and> n \<le> 30) \<or> n = 133)"

fun splitlines_acc :: "string \<Rightarrow> string \<Rightarrow> string list" where
  "splitlines_acc cur [] = (if cur = [] then [] else [rev cur])"
| "splitlines_acc cur [c] = (if islinebreak c then [rev cur] else [rev (c # cur)])"
| "splitlines_acc cur (c # d # s) =
     (if c = CHR 0x0D \<and> d = CHR 0x0A then rev cur # splitlines_acc [] s
      else if islinebreak c then rev cur # splitlines_acc [] (d # s)
      else splitlines_acc (c # cur) (d # s))"

definition splitlines :: "string \<Rightarrow> string list" where
  "splitlines s = splitlines_acc [] s"

section \<open>Exceptions and the external parser\<close>

datatype exn = KeyError | IndexError | AttributeError | OtherError string

text \<open>
  What \<open>basic_sqlparse_ok\<close> reads of a parsed statement: its first token that is not
  whitespace or a comment (\<open>None\<close> when there is none) and its normalized text.
\<close>

record statement =
  token_first :: "string option"
  normalized :: string

text \<open>
  The environment of the validator: the external parser, which may raise, and the
  orders in which the interpreter iterates over the two sets \<open>FORBIDDEN_WORDS\<close> and
  \<open>ALLOWED_TABLES\<close> (a set has no iteration order of its own).
\<close>

record env =
  sqlparse_parse :: "string \<Rightarrow> exn + statement list"
  forbidden_iter :: "string list"
  tables_iter :: "string list"

section \<open>Configuration\<close>

definition SCHEMA :: "(string \<times> string list) list" where
  "SCHEMA =
     [(''Users'', [''user_id'', ''name'', ''email'']),
      (''Orders'', [''order_id'', ''user_id'', ''product_id'', ''quantity'', ''order_date'']),
      (''Products'', [''product_id'', ''name'', ''price''])]"

definition ALLOWED_TABLES :: "string set" where
  "ALLOWED_TABLES = set (map (\<lambda>t. lower (fst t)) SCHEMA)"

definition FORBIDDEN_WORDS :: "string set" where
  "FORBIDDEN_WORDS =
     {''drop'', ''delete'', ''truncate'', ''update'', ''insert'', ''alter'', ''create'',
      ''grant'', ''revoke''}"

text \<open>The environment iterates over exactly the two configured sets, each element once.\<close>

definition env_ok :: "env \<Rightarrow> bool" where
  "env_ok e =
     (set (forbidden_iter e) = FORBIDDEN_WORDS \<and> distinct (forbidden_iter e)
      \<and> set (tables_iter e) = ALLOWED_TABLES \<and> distinct (tables_iter e))"

section \<open>Validation functions\<close>

definition pairs :: "char \<rightharpoonup> char" where
  "pairs = [CHR '')'' \<mapsto> CHR ''('', CHR '']'' \<mapsto> CHR ''['', CHR ''}'' \<mapsto> CHR ''{'']"

text \<open>
  The loop of \<open>parentheses_match\<close>. The stack is kept with its top at the head:
  \<open>append\<close> is \<open>#\<close>, \<open>stack[-1]\<close> is \<open>hd\<close>, \<open>pop\<close> is \<open>tl\<close>. The dictionary lookup
  \<open>pairs[ch]\<close> raises \<open>KeyError\<close> on a missing key.
\<close>

fun parentheses_loop :: "char list \<Rightarrow> string \<Rightarrow> exn + bool" where
  "parentheses_loop stack [] = Inr (stack = [])"
| "parentheses_loop stack (ch # s) =
     (if ch \<in> set ''([{'' then parentheses_loop (ch # stack) s
      else if ch \<in> set '')]}'' then
        (if stack = [] then Inr False
         else (case pairs ch of
                 None \<Rightarrow> Inl KeyError
               | Some p \<Rightarrow> if hd stack \<noteq> p then Inr False else parentheses_loop (tl stack) s))
      else parentheses_loop stack s)"

definition parentheses_match :: "string \<Rightarrow> exn + bool" where
  "parentheses_match s = parentheses_loop [] s"

definition quotes_match :: "string \<Rightarrow> bool" where
  "quotes_match s = (count s (CHR 0x27) mod 2 = 0 \<and> count s (CHR 0x22) mod 2 = 0)"

text \<open>
  \<open>re.search(r"\b" + re.escape(kw) + r"\b", low)\<close> for a keyword of letters, which
  \<open>re.escape\<close> leaves as it is. The search tries each start position from the left;
  \<open>prev\<close> is the character before the position, if any. \<open>\b\<close> holds between two
  positions exactly one of which is a word character; the ends of the text count as
  not a word character.
\<close>

definition isword_opt :: "char option \<Rightarrow> bool" where
  "isword_opt x = (case x of None \<Rightarrow> False | Some c \<Rightarrow> isword c)"

definition boundary :: "char option \<Rightarrow> char option \<Rightarrow> bool" where
  "boundary l r = (isword_opt l \<noteq> isword_opt r)"

definition first_opt :: "string \<Rightarrow> char option" where
  "first_opt s = (case s of [] \<Rightarrow> None | c # _ \<Rightarrow> Some c)"

definition last_opt :: "char option \<Rightarrow> string \<Rightarrow> char option" where
  "last_opt prev s = (if s = [] then prev else Some (last s))"

definition word_match_here :: "string \<Rightarrow> char option \<Rightarrow> string \<Rightarrow> bool" where
  "word_match_here kw prev s =
     (boundary prev (first_opt s) \<and> startswith s kw
      \<and> boundary (last_opt prev kw) (first_opt (drop (length kw) s)))"

fun word_search_from :: "string \<Rightarrow> char option \<Rightarrow> string \<Rightarrow> bool" where
  "word_search_from kw prev [] = word_match_here kw prev []"
| "word_search_from kw prev (c # s) =
     (word_match_here kw prev (c # s) \<or> word_search_from kw (Some c) s)"

definition word_search :: "string \<Rightarrow> string \<Rightarrow> bool" where
  "word_search kw low = word_search_from kw None low"

definition contains_forbidden :: "env \<Rightarrow> string \<Rightarrow> string list" where
  "contains_forbidden e sql =
     (let low = lower sql in filter (\<lambda>kw. word_search kw low) (forbidden_iter e))"

definition has_select_from :: "string \<Rightarrow> bool" where
  "has_select_from sql = (let low = lower sql in contains low ''select'' \<and> contains low ''from'')"

definition uses_known_tables :: "env \<Rightarrow> string \<Rightarrow> bool \<times> string list" where
  "uses_known_tables e sql =
     (let low = lower sql;
          used = filter (\<lambda>t. word_search t low) (tables_iter e)
      in (length used > 0, used))"

text \<open>The body of the \<open>try\<close> block of \<open>basic_sqlparse_ok\<close>, and the function with its handler.\<close>

definition basic_sqlparse_try :: "env \<Rightarrow> string \<Rightarrow> exn + bool" where
  "basic_sqlparse_try e sql =
     (case sqlparse_parse e sql of
        Inl x \<Rightarrow> Inl x
      | Inr parsed \<Rightarrow>
          if parsed = [] then Inr False
          else (case parsed of
                  [] \<Rightarrow> Inl IndexError
                | stmt # _ \<Rightarrow>
                    if token_first stmt = None then Inr False
                    else Inr (startswith (lower (strip (normalized stmt))) ''select'')))"

definition basic_sqlparse_ok :: "env \<Rightarrow> string \<Rightarrow> bool" where
  "basic_sqlparse_ok e sql = (case basic_sqlparse_try e sql of Inl _ \<Rightarrow> False | Inr b \<Rightarrow> b)"

definition msg_empty :: string where
  "msg_empty = ''Empty SQL.''"

definition msg_multiple :: string where
  "msg_multiple = ''Multiple statements detected (more than 1 semicolon).''"

definition msg_semicolon :: string where
  "msg_semicolon = ''SQL should end with a semicolon ';'.''"

definition msg_brackets :: string where
  "msg_brackets = ''Mismatched parentheses/brackets.''"

definition msg_quotes :: string where
  "msg_quotes = ''Mismatched quotes.''"

definition msg_forbidden :: "string list \<Rightarrow> string" where
  "msg_forbidden forb = ''Forbidden keyword(s) present: '' @ join '', '' forb"

definition msg_shape :: string where
  "msg_shape = ''Missing SELECT and/or FROM clause.''"

definition msg_tables :: string where
  "msg_tables = ''No known schema tables referenced (Users, Orders, Products).''"

definition msg_parse :: string where
  "msg_parse = ''sqlparse could not detect a valid SELECT statement (parsing error).''"

text \<open>
  \<open>validate_sql\<close>, statement by statement. An exception of a called function leaves
  the function at once, as \<open>Inl\<close>.
\<close>

definition validate_sql :: "env \<Rightarrow> string \<Rightarrow> exn + bool \<times> string list" where
  "validate_sql e sql =
     (let errors = [];
          trimmed = strip sql
      in if trimmed = [] then Inr (False, errors @ [msg_empty])
         else
           let errors = (if count trimmed (CHR '';'') > 1 then errors @ [msg_multiple] else errors);
               errors = (if \<not> endswith trimmed '';'' then errors @ [msg_semicolon] else errors)
           in (case parentheses_match trimmed of
                 Inl x \<Rightarrow> Inl x
               | Inr balanced \<Rightarrow>
                   let errors = (if \<not> balanced then errors @ [msg_brackets] else errors);
                       errors = (if \<not> quotes_match trimmed then errors @ [msg_quotes] else errors);
                       forb = contains_forbidden e trimmed;
                       errors = (if forb \<noteq> [] then errors @ [msg_forbidden forb] else errors);
                       errors = (if \<not> has_select_from trimmed then errors @ [msg_shape] else errors);
                       (known, used_tables) = uses_known_tables e trimmed;
                       errors = (if \<not> known then errors @ [msg_tables] else errors);
                       errors = (if \<not> basic_sqlparse_ok e trimmed then errors @ [msg_parse]
                                 else errors)
                   in Inr (length errors = 0, errors)))"

section \<open>Prompt template\<close>

text \<open>
  \<open>BASE_PROMPT.format(question=..., previous_sql=..., error_hint=...)\<close>: the template
  is cut at its three placeholders, and the values are inserted as they are.
\<close>

definition BASE_PROMPT_head :: string where
  "BASE_PROMPT_head = ''
You are an SQL generator assistant. Use ONLY the schema below and produce RAW SQL as the only output (no explanation).

Schema:
TABLE Users(user_id, name, email)
TABLE Orders(order_id, user_id, product_id, quantity, order_date)
TABLE Products(product_id, name, price)

Rules:
1) Output ONLY valid SQL (single statement) and nothing else.
2) Use JOINs when necessary to combine tables.
3) Do NOT use forbidden commands: DROP, DELETE, TRUNCATE, UPDATE, INSERT, ALTER, CREATE.
4) Always use table names exactly as in the schema (Users, Orders, Products).
5) Keep queries concise and produce valid SQL statements ending with a semicolon.

Examples:
Q: List all users who placed an order.
A: SELECT u.name, u.email
   FROM Users u
   JOIN Orders o ON u.user_id = o.user_id;

Q: Show order id, user name and product name for all orders.
A: SELECT o.order_id, u.name AS user_name, p.name AS product_name
   FROM Orders o
   JOIN Users u ON o.user_id = u.user_id
   JOIN Products p ON o.product_id = p.product_id;

Q: What are the top 5 most expensive products?
A: SELECT name, price
   FROM Products
   ORDER BY price DESC
   LIMIT 5;

Now generate SQL for the question below. Output ONLY the SQL statement.

QUESTION:
''"

definition BASE_PROMPT_previous :: string where
  "BASE_PROMPT_previous = ''

PREVIOUS_SQL:
''"

definition BASE_PROMPT_hint :: string where
  "BASE_PROMPT_hint = ''

ERROR_HINT:
''"

definition BASE_PROMPT_tail :: string where
  "BASE_PROMPT_tail = ''
''"

definition format_prompt :: "string \<Rightarrow> string \<Rightarrow> string \<Rightarrow> string" where
  "format_prompt question previous_sql error_hint =
     BASE_PROMPT_head @ question @ BASE_PROMPT_previous @ previous_sql
     @ BASE_PROMPT_hint @ error_hint @ BASE_PROMPT_tail"

section \<open>Model generation wrapper\<close>

text \<open>
  The text generation pipeline is external. A call returns a value or raises. The
  value is a list of dictionaries, or something else, of which only its \<open>str()\<close> is
  read. A dictionary value is a string or not a string.
\<close>

datatype pyval = PStr string | PNotStr

datatype pipe_out = OutList "(string \<rightharpoonup> pyval) list" | OutOther string

type_synonym generator = "string \<Rightarrow> exn + pipe_out"

text \<open>
  The behaviour of the service over a run: what the call made in attempt \<open>k\<close>
  answers to a prompt. The loop calls the service once in each attempt.
\<close>

type_synonym service = "int \<Rightarrow> generator"

text \<open>
  \<open>generate_sql_from_model\<close>: an empty list is not taken as a list of results, and
  its \<open>str()\<close> is \<open>[]\<close>; \<open>strip\<close> on a value that is not a string raises.
\<close>

definition generate_sql_from_model :: "generator \<Rightarrow> string \<Rightarrow> exn + string" where
  "generate_sql_from_model gen prompt =
     (case gen prompt of
        Inl x \<Rightarrow> Inl x
      | Inr out \<Rightarrow>
          (case out of
             OutList (d # _) \<Rightarrow>
               (case (case d ''generated_text'' of None \<Rightarrow> PStr [] | Some v \<Rightarrow> v) of
                  PStr text \<Rightarrow> Inr (strip text)
                | PNotStr \<Rightarrow> Inl AttributeError)
           | OutList [] \<Rightarrow> Inr (strip ''[]'')
           | OutOther text \<Rightarrow> Inr (strip text)))"

section \<open>Main flow\<close>

text \<open>
  \<open>re.search(r"(?s)(select\b.*?;)", text, flags=re.IGNORECASE)\<close>, group 1. At a start
  position the six letters match without regard to case, \<open>\b\<close> holds after them, and
  the lazy \<open>.*?\<close> (any character, line breaks included) stops at the first semicolon
  that follows. The search tries each start position from the left.
\<close>

definition select_match_here :: "string \<Rightarrow> string option" where
  "select_match_here s =
     (if lower (take 6 s) = ''select''
         \<and> boundary (last_opt None (take 6 s)) (first_opt (drop 6 s))
         \<and> CHR '';'' \<in> set (drop 6 s)
      then Some (take 6 s @ takeWhile (\<lambda>c. c \<noteq> CHR '';'') (drop 6 s) @ '';'')
      else None)"

fun select_search :: "string \<Rightarrow> string option" where
  "select_search [] = None"
| "select_search (c # s) =
     (case select_match_here (c # s) of
        Some m \<Rightarrow> Some m
      | None \<Rightarrow> select_search s)"

text \<open>Lines 233 to 243 of \<open>run\<close>: the candidate statement taken out of the raw text.\<close>

definition extract_candidate :: "string \<Rightarrow> string" where
  "extract_candidate candidate =
     (case select_search candidate of
        Some m \<Rightarrow> strip m
      | None \<Rightarrow>
          let lines = splitlines (strip candidate);
              candidate_sql = join '' '' (map strip (filter (\<lambda>line. strip line \<noteq> []) lines))
          in if \<not> endswith candidate_sql '';'' then candidate_sql @ '';'' else candidate_sql)"

text \<open>What one attempt writes to the diagnostic stream.\<close>

record attempt_log =
  log_attempt :: int
  log_prompt :: string
  log_candidate :: string
  log_candidate_sql :: string
  log_ok :: bool
  log_errors :: "string list"

record loop_state =
  previous_sql :: string
  error_hint :: string
  final_sql :: "string option"
  history :: "attempt_log list"

text \<open>
  The \<open>for\<close> loop of \<open>run\<close> over the attempt numbers that remain. \<open>break\<close> returns the
  state at once. The pause between attempts has no effect on the state.
\<close>

fun attempt_loop :: "env \<Rightarrow> service \<Rightarrow> string \<Rightarrow> int list \<Rightarrow> loop_state \<Rightarrow> exn + loop_state" where
  "attempt_loop e gen question [] st = Inr st"
| "attempt_loop e gen question (attempt # rest) st =
     (let prompt = format_prompt question (previous_sql st) (error_hint st);
          candidate = (case generate_sql_from_model (gen attempt) prompt of
                         Inl _ \<Rightarrow> []
                       | Inr text \<Rightarrow> text);
          candidate_sql = extract_candidate candidate
      in (case validate_sql e candidate_sql of
            Inl x \<Rightarrow> Inl x
          | Inr (ok, errors) \<Rightarrow>
              let entry = \<lparr>log_attempt = attempt, log_prompt = prompt,
                           log_candidate = candidate, log_candidate_sql = candidate_sql,
                           log_ok = ok, log_errors = errors\<rparr>
              in if ok
                 then Inr (st\<lparr>final_sql := Some candidate_sql, history := history st @ [entry]\<rparr>)
                 else attempt_loop e gen question rest
                        (st\<lparr>previous_sql := candidate_sql,
                            error_hint := join '' | '' errors,
                            history := history st @ [entry]\<rparr>)))"

definition initial_state :: loop_state where
  "initial_state = \<lparr>previous_sql = [], error_hint = [], final_sql = None, history = []\<rparr>"

text \<open>
  The result of a run: the value of \<open>final_sql\<close> once the loop and the exhaustion
  branch are over (\<open>outcome\<close>), whether that branch was taken, the statement printed
  to standard output, whether the final warning was logged, and the attempts made.
\<close>

record run_result =
  outcome :: string
  exhausted :: bool
  output_sql :: string
  warning :: bool
  attempts :: "attempt_log list"

text \<open>Lines 269 to 276 of \<open>run\<close>: the statement printed to standard output.\<close>

definition final_output :: "string \<Rightarrow> string" where
  "final_output final =
     (case select_search final of
        Some m \<Rightarrow> strip m
      | None \<Rightarrow>
          let stripped = strip final
          in if stripped \<noteq> [] \<and> \<not> endswith stripped '';''
             then stripped @ '';'' else stripped)"

definition run_with :: "env \<Rightarrow> service \<Rightarrow> string \<Rightarrow> int \<Rightarrow> exn + run_result" where
  "run_with e gen question max_retries =
     (case attempt_loop e gen question [1..max_retries] initial_state of
        Inl x \<Rightarrow> Inl x
      | Inr st \<Rightarrow>
          let final = (case final_sql st of
                         None \<Rightarrow> (if previous_sql st \<noteq> [] then previous_sql st else [])
                       | Some f \<Rightarrow> f);
              out = final_output final
          in (case validate_sql e out of
                Inl x \<Rightarrow> Inl x
              | Inr (ok, _) \<Rightarrow>
                  Inr \<lparr>outcome = final, exhausted = (final_sql st = None), output_sql = out,
                       warning = (\<not> ok), attempts = history st\<rparr>))"

text \<open>\<open>run\<close>: a failure of \<open>make_generator\<close> leaves the function before the loop.\<close>

definition run :: "env \<Rightarrow> exn + service \<Rightarrow> string \<Rightarrow> int \<Rightarrow> exn + run_result" where
  "run e made question max_retries =
     (case made of
        Inl x \<Rightarrow> Inl x
      | Inr gen \<Rightarrow> run_with e gen question max_retries)"

section \<open>Derived notions and example inputs\<close>

text \<open>
  \<open>brackets_ok\<close> is the verdict of \<open>parentheses_match\<close>, and \<open>check_errors\<close> the list of
  messages of the eight checks that follow the emptiness check, in the order in which
  \<open>validate_sql\<close> runs them. The example environment has a parser that returns one
  statement whose normalized text is the input; the second one has a parser that
  always raises.
\<close>

definition brackets_ok :: "string \<Rightarrow> bool" where
  "brackets_ok s = (parentheses_match s = Inr True)"

definition check_errors :: "env \<Rightarrow> string \<Rightarrow> string list" where
  "check_errors e t =
     (if count t (CHR '';'') > 1 then [msg_multiple] else [])
     @ (if endswith t '';'' then [] else [msg_semicolon])
     @ (if brackets_ok t then [] else [msg_brackets])
     @ (if quotes_match t then [] else [msg_quotes])
     @ (if contains_forbidden e t = [] then [] else [msg_forbidden (contains_forbidden e t)])
     @ (if has_select_from t then [] else [msg_shape])
     @ (if fst (uses_known_tables e t) then [] else [msg_tables])
     @ (if basic_sqlparse_ok e t then [] else [msg_parse])"

definition example_env :: env where
  "example_env =
     \<lparr>sqlparse_parse = (\<lambda>s. Inr [\<lparr>token_first = Some s, normalized = s\<rparr>]),
      forbidden_iter = [''drop'', ''delete'', ''truncate'', ''update'', ''insert'', ''alter'',
                        ''create'', ''grant'', ''revoke''],
      tables_iter = [''users'', ''orders'', ''products'']\<rparr>"

definition raising_env :: env where
  "raising_env = example_env\<lparr>sqlparse_parse := (\<lambda>s. Inl (OtherError ''parser''))\<rparr>"

text \<open>
  Three behaviours of the generation service: it always raises, it always returns the
  empty string, and it always returns \<open>DROP TABLE Users;\<close>.
\<close>

definition raising_service :: service where
  "raising_service = (\<lambda>k p. Inl (OtherError ''backend''))"

definition empty_service :: service where
  "empty_service = (\<lambda>k p. Inr (OutList [[''generated_text'' \<mapsto> PStr []]]))"

definition drop_service :: service where
  "drop_service = (\<lambda>k p. Inr (OutList [[''generated_text'' \<mapsto> PStr ''DROP TABLE Users;'']]))"

text \<open>
  \<open>attempt_made\<close>: a log entry records one call of the service and the extraction and
  validation of what it returned. \<open>loop_post\<close>: what the loop over the attempt numbers
  \<open>ks\<close> has done when it ends in \<open>st'\<close>, having logged the entries \<open>new\<close>: every entry
  but the last failed, and either the last one passed and is the final statement, or
  all failed, every number of \<open>ks\<close> was tried and the last candidate is kept as
  \<open>previous_sql\<close>.
\<close>

definition attempt_made :: "env \<Rightarrow> service \<Rightarrow> attempt_log \<Rightarrow> bool" where
  "attempt_made e gen a =
     (log_candidate a = (case generate_sql_from_model (gen (log_attempt a)) (log_prompt a) of
                           Inl _ \<Rightarrow> []
                         | Inr text \<Rightarrow> text)
      \<and> log_candidate_sql a = extract_candidate (log_candidate a)
      \<and> validate_sql e (log_candidate_sql a) = Inr (log_ok a, log_errors a))"

definition loop_post :: "env \<Rightarrow> service \<Rightarrow> int list \<Rightarrow> loop_state \<Rightarrow> loop_state \<Rightarrow> attempt_log list \<Rightarrow> bool" where
  "loop_post e gen ks st st' new =
     (history st' = history st @ new
      \<and> map log_attempt new = take (length new) ks
      \<and> list_all (attempt_made e gen) new
      \<and> list_all (\<lambda>a. \<not> log_ok a) (butlast new)
      \<and> (if new \<noteq> [] \<and> log_ok (last new)
          then final_sql st' = Some (log_candidate_sql (last new))
          else final_sql st' = final_sql st \<and> length new = length ks
               \<and> previous_sql st' = (if new = [] then previous_sql st
                                      else log_candidate_sql (last new))))"

section \<open>The validator returns, and what it returns\<close>

lemma pairs_closer: "ch \<in> set '')]}'' \<Longrightarrow> \<exists>p. pairs ch = Some p"
  by (auto simp: pairs_def)

lemma parentheses_loop_total: "\<exists>b. parentheses_loop stack s = Inr b"
proof (induction s arbitrary: stack)
  case Nil
  show ?case by simp
next
  case (Cons ch s)
  show ?case
  proof (cases "ch \<in> set ''([{''")
    case True
    then show ?thesis using Cons.IH [of "ch # stack"] by simp
  next
    case False
    note notopen = this
    show ?thesis
    proof (cases "ch \<in> set '')]}''")
      case True
      then obtain p where p: "pairs ch = Some p" using pairs_closer by blast
      show ?thesis using notopen True p Cons.IH [of "tl stack"] by auto
    next
      case False
      then show ?thesis using notopen Cons.IH [of stack] by simp
    qed
  qed
qed

lemma parentheses_match_cases: "parentheses_match s = Inr (brackets_ok s)"
  using parentheses_loop_total [of "[]" s] by (auto simp: brackets_ok_def parentheses_match_def)

lemma validate_sql_nonempty:
  "strip sql \<noteq> [] \<Longrightarrow>
     validate_sql e sql = Inr (check_errors e (strip sql) = [], check_errors e (strip sql))"
  unfolding validate_sql_def Let_def check_errors_def
  by (simp add: parentheses_match_cases split: prod.splits)

lemma validate_sql_empty:
  "strip sql = [] \<Longrightarrow> validate_sql e sql = Inr (False, [msg_empty])"
  by (simp add: validate_sql_def)

lemmas msg_defs = msg_empty_def msg_multiple_def msg_semicolon_def msg_brackets_def
  msg_quotes_def msg_forbidden_def msg_shape_def msg_tables_def msg_parse_def

lemma basic_sqlparse_ok_raise: "sqlparse_parse e t = Inl x \<Longrightarrow> \<not> basic_sqlparse_ok e t"
  by (simp add: basic_sqlparse_ok_def basic_sqlparse_try_def)

lemma msg_parse_in: "msg_parse \<in> set (check_errors e t) \<longleftrightarrow> \<not> basic_sqlparse_ok e t"
  by (simp add: check_errors_def msg_defs)

lemma check_errors_members:
  "msg_empty \<notin> set (check_errors e t)"
  "msg_multiple \<in> set (check_errors e t) \<longleftrightarrow> 1 < count t (CHR '';'')"
  "msg_semicolon \<in> set (check_errors e t) \<longleftrightarrow> \<not> endswith t '';''"
  "msg_brackets \<in> set (check_errors e t) \<longleftrightarrow> \<not> brackets_ok t"
  "msg_quotes \<in> set (check_errors e t) \<longleftrightarrow> \<not> quotes_match t"
  "msg_forbidden (contains_forbidden e t) \<in> set (check_errors e t) \<longleftrightarrow> contains_forbidden e t \<noteq> []"
  "msg_shape \<in> set (check_errors e t) \<longleftrightarrow> \<not> has_select_from t"
  "msg_tables \<in> set (check_errors e t) \<longleftrightarrow> \<not> fst (uses_known_tables e t)"
  by (simp_all add: check_errors_def msg_defs)

text \<open>
  Claim C1. For every environment and every input, \<open>validate_sql\<close> returns a pair of a
  verdict and a list of errors, and the verdict is true exactly when the list is empty.
\<close>

theorem validate_sql_verdict_iff_no_errors:
  "\<exists>ok errs. validate_sql e sql = Inr (ok, errs) \<and> (ok \<longleftrightarrow> errs = [])"
proof (cases "strip sql = []")
  case True
  then show ?thesis by (auto simp: validate_sql_empty)
next
  case False
  then show ?thesis by (simp add: validate_sql_nonempty)
qed

theorem validate_sql_verdict_witness:
  "validate_sql example_env ''SELECT name FROM Users;'' = Inr (True, [])
   \<and> validate_sql example_env ''DROP TABLE Users;''
       = Inr (False, [''Forbidden keyword(s) present: drop'',
                      ''Missing SELECT and/or FROM clause.'',
                      ''sqlparse could not detect a valid SELECT statement (parsing error).''])"
proof -
  have v: "validate_sql example_env ''SELECT name FROM Users;'' = Inr (True, [])"
    by code_simp
  have w: "snd (projr (validate_sql example_env ''DROP TABLE Users;''))
       = [''Forbidden keyword(s) present: drop'',
                      ''Missing SELECT and/or FROM clause.'',
                      ''sqlparse could not detect a valid SELECT statement (parsing error).'']"
    by code_simp
  from validate_sql_verdict_iff_no_errors [of example_env "''DROP TABLE Users;''"]
  obtain ok errs where "validate_sql example_env ''DROP TABLE Users;'' = Inr (ok, errs)"
    and "ok \<longleftrightarrow> errs = []" by blast
  with v w show ?thesis by auto
qed

text \<open>
  Claim C2. \<open>validate_sql\<close> never raises: for every environment and input it returns a
  pair. When the external parser raises on a candidate that is not empty, the result
  is a failed validation that carries the parse error message.
\<close>

theorem validate_sql_total:
  "(\<exists>ok errs. validate_sql e sql = Inr (ok, errs))
   \<and> (strip sql \<noteq> [] \<and> sqlparse_parse e (strip sql) = Inl x \<longrightarrow>
        (\<exists>errs. validate_sql e sql = Inr (False, errs) \<and> msg_parse \<in> set errs))"
proof (cases "strip sql = []")
  case True
  then show ?thesis by (auto simp: validate_sql_empty)
next
  case False
  then show ?thesis
    using msg_parse_in [of e "strip sql"] basic_sqlparse_ok_raise [of e "strip sql" x]
    by (auto simp: validate_sql_nonempty)
qed

theorem validate_sql_total_witness:
  "validate_sql raising_env ''SELECT name FROM Users;''
     = Inr (False, [''sqlparse could not detect a valid SELECT statement (parsing error).''])"
proof -
  have a: "strip ''SELECT name FROM Users;'' \<noteq> []" by code_simp
  have b: "sqlparse_parse raising_env (strip ''SELECT name FROM Users;'') = Inl (OtherError ''parser'')"
    by (simp add: raising_env_def)
  have c: "snd (projr (validate_sql raising_env ''SELECT name FROM Users;''))
     = [''sqlparse could not detect a valid SELECT statement (parsing error).'']"
    by code_simp
  from validate_sql_total [of raising_env "''SELECT name FROM Users;''" "OtherError ''parser''"] a b
  obtain errs where "validate_sql raising_env ''SELECT name FROM Users;'' = Inr (False, errs)"
    by blast
  with c show ?thesis by simp
qed

text \<open>
  Claim C8. A candidate that is empty after trimming gives the single error
  \<open>Empty SQL.\<close> and nothing else. For every other candidate each of the eight remaining
  checks reports its error exactly when it fails, whatever the other checks found.
\<close>

theorem validate_sql_runs_every_check:
  "(strip sql = [] \<longrightarrow> validate_sql e sql = Inr (False, [msg_empty]))
   \<and> (strip sql \<noteq> [] \<longrightarrow>
        (\<exists>ok errs. validate_sql e sql = Inr (ok, errs)
           \<and> msg_empty \<notin> set errs
           \<and> (msg_multiple \<in> set errs \<longleftrightarrow> 1 < count (strip sql) (CHR '';''))
           \<and> (msg_semicolon \<in> set errs \<longleftrightarrow> \<not> endswith (strip sql) '';'')
           \<and> (msg_brackets \<in> set errs \<longleftrightarrow> parentheses_match (strip sql) \<noteq> Inr True)
           \<and> (msg_quotes \<in> set errs \<longleftrightarrow> \<not> quotes_match (strip sql))
           \<and> (msg_forbidden (contains_forbidden e (strip sql)) \<in> set errs
                \<longleftrightarrow> contains_forbidden e (strip sql) \<noteq> [])
           \<and> (msg_shape \<in> set errs \<longleftrightarrow> \<not> has_select_from (strip sql))
           \<and> (msg_tables \<in> set errs \<longleftrightarrow> \<not> fst (uses_known_tables e (strip sql)))
           \<and> (msg_parse \<in> set errs \<longleftrightarrow> \<not> basic_sqlparse_ok e (strip sql))))"
proof (cases "strip sql = []")
  case True
  then show ?thesis by (simp add: validate_sql_empty)
next
  case False
  have "validate_sql e sql = Inr (check_errors e (strip sql) = [], check_errors e (strip sql))"
    using False by (rule validate_sql_nonempty)
  then show ?thesis
    using False check_errors_members [of e "strip sql"] msg_parse_in [of e "strip sql"]
    by (simp add: brackets_ok_def)
qed

theorem validate_sql_runs_every_check_witness:
  "validate_sql example_env ''   '' = Inr (False, [''Empty SQL.''])
   \<and> validate_sql example_env '' DELETE FROM (Users; DROP x; y ''
     = Inr (False, [''Multiple statements detected (more than 1 semicolon).'',
                    ''SQL should end with a semicolon ';'.'',
                    ''Mismatched parentheses/brackets.'',
                    ''Forbidden keyword(s) present: drop, delete'',
                    ''Missing SELECT and/or FROM clause.'',
                    ''sqlparse could not detect a valid SELECT statement (parsing error).''])"
proof -
  have a: "strip ''   '' = []" by code_simp
  have b: "strip '' DELETE FROM (Users; DROP x; y '' \<noteq> []" by code_simp
  have c: "snd (projr (validate_sql example_env '' DELETE FROM (Users; DROP x; y ''))
     = [''Multiple statements detected (more than 1 semicolon).'',
                    ''SQL should end with a semicolon ';'.'',
                    ''Mismatched parentheses/brackets.'',
                    ''Forbidden keyword(s) present: drop, delete'',
                    ''Missing SELECT and/or FROM clause.'',
                    ''sqlparse could not detect a valid SELECT statement (parsing error).'']"
    by code_simp
  have d: "fst (projr (validate_sql example_env '' DELETE FROM (Users; DROP x; y '')) = False"
    by code_simp
  from validate_sql_runs_every_check [of "''   ''" example_env] a
  have 1: "validate_sql example_env ''   '' = Inr (False, [''Empty SQL.''])"
    by (simp add: msg_empty_def)
  from validate_sql_runs_every_check [of "'' DELETE FROM (Users; DROP x; y ''" example_env] b
  obtain ok errs where "validate_sql example_env '' DELETE FROM (Users; DROP x; y '' = Inr (ok, errs)"
    by blast
  with c d 1 show ?thesis by simp
qed

section \<open>Characters, trimming and extraction\<close>

lemma of_char_lower_char:
  "(of_char (lower_char c) :: nat) =
     (if (65 \<le> (of_char c :: nat) \<and> (of_char c :: nat) \<le> 90)
         \<or> (192 \<le> (of_char c :: nat) \<and> (of_char c :: nat) \<le> 222 \<and> (of_char c :: nat) \<noteq> 215)
      then of_char c + 32 else of_char c)"
  by (auto simp: lower_char_def Let_def)

lemma isword_lower_char: "isword (lower_char c) = isword c"
  unfolding isword_def Let_def of_char_lower_char by (simp split: if_splits)

lemma lower_char_letter:
  assumes "lower_char c = d" and "97 \<le> (of_char d :: nat)" and "(of_char d :: nat) \<le> 122"
  shows "isword c \<and> \<not> isspace c \<and> c \<noteq> CHR '';''"
proof -
  have "(of_char (lower_char c) :: nat) = of_char d" using assms(1) by simp
  then have "(65 \<le> (of_char c :: nat) \<and> (of_char c :: nat) \<le> 90)
      \<or> (97 \<le> (of_char c :: nat) \<and> (of_char c :: nat) \<le> 122)"
    using assms(2,3) unfolding of_char_lower_char by (simp split: if_splits)
  then show ?thesis by (auto simp: isword_def isspace_def Let_def)
qed

lemma isspace_semicolon: "\<not> isspace (CHR '';'')"
  by (simp add: isspace_def)

lemma strip_empty_iff: "strip s = [] \<longleftrightarrow> (\<forall>c\<in>set s. isspace c)"
proof -
  have "strip s = [] \<longleftrightarrow> (\<forall>x\<in>set (dropWhile isspace s). isspace x)"
    by (simp add: strip_def dropWhile_eq_Nil_conv)
  also have "\<dots> \<longleftrightarrow> dropWhile isspace (dropWhile isspace s) = []"
    by (simp only: dropWhile_eq_Nil_conv)
  also have "\<dots> \<longleftrightarrow> dropWhile isspace s = []"
    by (simp only: dropWhile_idem)
  also have "\<dots> \<longleftrightarrow> (\<forall>c\<in>set s. isspace c)"
    by (simp only: dropWhile_eq_Nil_conv)
  finally show ?thesis .
qed

lemma strip_id: "s \<noteq> [] \<Longrightarrow> \<not> isspace (hd s) \<Longrightarrow> \<not> isspace (last s) \<Longrightarrow> strip s = s"
proof -
  assume a: "s \<noteq> []" "\<not> isspace (hd s)" "\<not> isspace (last s)"
  have 1: "dropWhile isspace s = s" using a by (simp add: dropWhile_eq_self_iff)
  have 2: "dropWhile isspace (rev s) = rev s" using a by (simp add: dropWhile_eq_self_iff hd_rev)
  show ?thesis by (simp add: strip_def 1 2)
qed

lemma lower_select_first:
  assumes "lower (take 6 s) = ''select''"
  shows "s \<noteq> [] \<and> \<not> isspace (hd s) \<and> 6 \<le> length s"
proof -
  have "length (lower (take 6 s)) = length ''select''" by (simp only: assms)
  then have l6: "6 \<le> length s" by (simp add: lower_def)
  then obtain c s' where s: "s = c # s'" by (cases s) auto
  have "lower_char c = CHR ''s''" using assms s by (simp add: lower_def)
  then have "\<not> isspace c" using lower_char_letter [of c "CHR ''s''"] by simp
  then show ?thesis using s l6 by simp
qed

lemma select_match_here_shape:
  assumes "select_match_here s = Some m"
  shows "m \<noteq> [] \<and> \<not> isspace (hd m) \<and> last m = CHR '';''"
proof -
  have l: "lower (take 6 s) = ''select''" using assms
    by (simp add: select_match_here_def split: if_splits)
  have m: "m = take 6 s @ takeWhile (\<lambda>c. c \<noteq> CHR '';'') (drop 6 s) @ '';''" using assms
    by (auto simp: select_match_here_def split: if_splits)
  have f: "s \<noteq> [] \<and> \<not> isspace (hd s) \<and> 6 \<le> length s" using l by (rule lower_select_first)
  then have "hd m = hd s" using m by (cases s) auto
  then show ?thesis using f m by simp
qed

lemma select_search_shape:
  "select_search s = Some m \<Longrightarrow> m \<noteq> [] \<and> \<not> isspace (hd m) \<and> last m = CHR '';''"
proof (induction s)
  case Nil
  then show ?case by simp
next
  case (Cons c s)
  then show ?case using select_match_here_shape [of "c # s" m]
    by (auto split: option.splits)
qed

lemma select_search_strip: "select_search s = Some m \<Longrightarrow> strip m = m"
  using select_search_shape [of s m] by (simp add: strip_id isspace_semicolon)

lemma endswith_semicolon: "endswith s '';'' \<longleftrightarrow> s \<noteq> [] \<and> last s = CHR '';''"
proof (cases s rule: rev_cases)
  case Nil
  then show ?thesis by (simp add: endswith_def)
next
  case (snoc ys y)
  then show ?thesis by (simp add: endswith_def)
qed

lemma extract_candidate_last:
  "extract_candidate raw \<noteq> [] \<and> last (extract_candidate raw) = CHR '';''"
proof (cases "select_search raw")
  case None
  then show ?thesis
    by (simp add: extract_candidate_def Let_def endswith_semicolon)
next
  case (Some m)
  then show ?thesis
    using select_search_shape [of raw m] select_search_strip [of raw m]
    by (simp add: extract_candidate_def)
qed

lemma extract_candidate_strip_nonempty: "strip (extract_candidate raw) \<noteq> []"
proof -
  have "CHR '';'' \<in> set (extract_candidate raw)"
    using extract_candidate_last [of raw] last_in_set [of "extract_candidate raw"] by metis
  then show ?thesis
    using isspace_semicolon by (auto simp: strip_empty_iff)
qed

section \<open>The attempt loop\<close>

lemma validate_sql_returns: "\<exists>ok errs. validate_sql e sql = Inr (ok, errs)"
  by (cases "strip sql = []") (auto simp: validate_sql_empty validate_sql_nonempty)

lemma attempt_loop_post:
  "\<exists>st' new. attempt_loop e gen q ks st = Inr st' \<and> loop_post e gen ks st st' new"
proof (induction ks arbitrary: st)
  case Nil
  have "loop_post e gen [] st st []" by (simp add: loop_post_def)
  then show ?case by auto
next
  case (Cons k ks)
  define p where "p = format_prompt q (previous_sql st) (error_hint st)"
  define c where "c = (case generate_sql_from_model (gen k) p of Inl _ \<Rightarrow> [] | Inr text \<Rightarrow> text)"
  define cs where "cs = extract_candidate c"
  obtain ok errs where v: "validate_sql e cs = Inr (ok, errs)"
    using validate_sql_returns by blast
  define entry where "entry = \<lparr>log_attempt = k, log_prompt = p, log_candidate = c,
     log_candidate_sql = cs, log_ok = ok, log_errors = errs\<rparr>"
  have made: "attempt_made e gen entry"
    using v by (simp add: attempt_made_def entry_def c_def cs_def)
  show ?case
  proof (cases ok)
    case True
    define st' where "st' = st\<lparr>final_sql := Some cs, history := history st @ [entry]\<rparr>"
    have "attempt_loop e gen q (k # ks) st = Inr st'"
      using True v by (simp add: p_def c_def cs_def entry_def st'_def Let_def)
    moreover have "loop_post e gen (k # ks) st st' [entry]"
      using True made by (simp add: loop_post_def st'_def entry_def)
    ultimately show ?thesis by blast
  next
    case False
    define st2 where "st2 = st\<lparr>previous_sql := cs, error_hint := join '' | '' errs,
       history := history st @ [entry]\<rparr>"
    have step: "attempt_loop e gen q (k # ks) st = attempt_loop e gen q ks st2"
      using False v by (simp add: p_def c_def cs_def entry_def st2_def Let_def)
    obtain st' new where r: "attempt_loop e gen q ks st2 = Inr st'"
      and post: "loop_post e gen ks st2 st' new"
      using Cons.IH [of st2] by blast
    have nok: "\<not> log_ok entry" using False by (simp add: entry_def)
    have "loop_post e gen (k # ks) st st' (entry # new)"
    proof (cases "new = []")
      case True
      then show ?thesis
        using post made nok by (simp add: loop_post_def st2_def entry_def)
    next
      case False
      then show ?thesis
        using post made nok by (auto simp: loop_post_def st2_def entry_def split: if_splits)
    qed
    with step r show ?thesis by auto
  qed
qed

end
